theory Spec2Isabelle
  imports Complex_Main
begin

unbundle bit_operations_syntax

section \<open>JavaScript numbers and arrays\<close>

text \<open>
  The functions verified here are \<open>median\<close>, \<open>segmentNotes\<close>, \<open>createMidiFile\<close> (with its inner
  \<open>encodeVariableLength\<close> and \<open>secondsToTicks\<close>) and \<open>voicedFlags\<close> of \<open>src/App.vue\<close>.

  A JavaScript number that carries a time, a pitch or a confidence is modelled as a \<open>real\<close>.
  The sums, differences and comparisons of the segmenter are the exact ones (on the 32-bit
  floats of a \<open>Float32Array\<close>, read as doubles, the sums and differences of timestamps in
  the segmenter are exact as long as the exponents of the timestamps are less than 29
  apart), and so are the logarithm and the power of its pitch conversion. Where a result is
  visibly rounded to a double, in \<open>parseFloat\<close> of a decimal string and in the products and
  quotients of the encoder, the rounding is written out as \<open>to_double\<close>. A number that is
  known to be an integer (a tick count, a byte, a MIDI note number) is an \<open>int\<close>. Where the
  source applies a bitwise operator, the operand first passes through \<open>ToInt32\<close>, which is
  written out as \<open>to_int32\<close>. A read past the end of an array yields \<open>undefined\<close>; such a read
  is \<open>nth_opt\<close>, and a value that may be \<open>undefined\<close> or \<open>NaN\<close> is a \<open>real option\<close>.
\<close>

definition nth_opt :: "'a list \<Rightarrow> nat \<Rightarrow> 'a option" where
  "nth_opt xs i = (if i < length xs then Some (xs ! i) else None)"

text \<open>\<open>Math.round\<close>: the nearest integer, a tie going towards plus infinity.\<close>

definition js_round :: "real \<Rightarrow> int" where
  "js_round x = \<lfloor>x + 1 / 2\<rfloor>"

text \<open>
  The decimal that the string \<open>x.toFixed(d)\<close> denotes: the nearest multiple of \<open>10^-d\<close>,
  a tie going away from zero (\<open>toFixed\<close> formats \<open>-x\<close> and prefixes the sign when \<open>x < 0\<close>).
\<close>

definition toFixed :: "nat \<Rightarrow> real \<Rightarrow> real" where
  "toFixed d x = sgn x * real_of_int \<lfloor>\<bar>x\<bar> * 10 ^ d + 1 / 2\<rfloor> / 10 ^ d"

text \<open>
  The double nearest to a real, a tie going to the even significand: the value of
  \<open>parseFloat\<close> on a decimal string, and the result of one multiplication or division.
  \<open>pow2 e\<close> is \<open>2^e\<close>; a double in the binade of \<open>e\<close> is a multiple of \<open>2^(e - 52)\<close>. The
  exponent is not bounded: overflow to \<open>Infinity\<close> and the subnormal range are left out.
\<close>

definition pow2 :: "int \<Rightarrow> real" where
  "pow2 k = (if 0 \<le> k then 2 ^ nat k else 1 / 2 ^ nat (- k))"

definition round_half_even :: "real \<Rightarrow> int" where
  "round_half_even q =
     (let f = \<lfloor>q\<rfloor>; r = q - real_of_int f
      in if r < 1 / 2 then f else if 1 / 2 < r then f + 1 else if even f then f else f + 1)"

definition to_double :: "real \<Rightarrow> real" where
  "to_double y =
     (if y = 0 then 0
      else let e = \<lfloor>log 2 \<bar>y\<bar>\<rfloor>;
               ulp = pow2 (e - 52)
           in sgn y * real_of_int (round_half_even (\<bar>y\<bar> / ulp)) * ulp)"

text \<open>\<open>ToInt32\<close> on an integer: reduction modulo \<open>2^32\<close> into \<open>[-2^31, 2^31)\<close>.\<close>

definition to_int32 :: "int \<Rightarrow> int" where
  "to_int32 v = signed_take_bit 31 v"

text \<open>The conversion of one array element by \<open>new Uint8Array([...])\<close>.\<close>

definition to_uint8 :: "int \<Rightarrow> int" where
  "to_uint8 v = v mod 256"

section \<open>The median helper\<close>

text \<open>
  \<^verbatim>\<open>
  const median = (arr: number[]) => {
    if (arr.length === 0) return 0;
    const sorted = [...arr].sort((a, b) => a - b);
    const mid = Math.floor(sorted.length / 2);
    return sorted.length % 2 === 0 ? (sorted[mid - 1] + sorted[mid]) / 2 : sorted[mid];
  };
  \<close>
\<close>

definition median :: "real list \<Rightarrow> real" where
  "median arr =
     (if length arr = 0 then 0
      else let sorted = sort arr;
               mid = length sorted div 2
           in if length sorted mod 2 = 0
              then (sorted ! (mid - 1) + sorted ! mid) / 2
              else sorted ! mid)"

section \<open>The voicing classifier\<close>

text \<open>
  \<open>voicedFlags\<close> maps over the pitch array and reads the confidence at the same index; a
  confidence read past the end is \<open>undefined\<close>, and \<open>undefined > threshold\<close> is false.
  \<open>hasData\<close> is the guard of the computed property.
\<close>

definition voicedFlags ::
  "bool \<Rightarrow> real list \<Rightarrow> real list \<Rightarrow> real \<Rightarrow> real \<times> real \<Rightarrow> bool list" where
  "voicedFlags hasData pitch_hz confidences threshold frequencyRange =
     (if \<not> hasData then []
      else map (\<lambda>i. let pitch = pitch_hz ! i in
                  case nth_opt confidences i of
                    None \<Rightarrow> False
                  | Some confidence \<Rightarrow>
                      confidence > threshold \<and>
                      pitch \<ge> fst frequencyRange \<and>
                      pitch \<le> snd frequencyRange)
               [0..<length pitch_hz])"

section \<open>The MIDI encoder\<close>

record note_segment =
  note_start :: real
  note_end :: real
  pitch_median :: real
  pitch_midi :: int

record midi_event =
  ev_time :: real
  ev_type :: int
  ev_note :: int
  ev_velocity :: int

datatype midi_error = NegativeVLQ

subsection \<open>Variable-length quantities\<close>

text \<open>
  The \<open>do ... while (currentVal > 0)\<close> loop of \<open>encodeVariableLength\<close>. Both \<open>&\<close> and \<open>>>=\<close>
  work on the 32-bit reading of their operand; \<open>>>\<close> is the arithmetic shift, which is
  \<open>drop_bit\<close> on \<open>int\<close>.
\<close>

function vlq_chunks :: "int \<Rightarrow> int list \<Rightarrow> int list" where
  "vlq_chunks currentVal tempChunks =
     (let tempChunks' = tempChunks @ [to_int32 currentVal AND 0x7F];
          currentVal' = drop_bit 7 (to_int32 currentVal)
      in if currentVal' > 0 then vlq_chunks currentVal' tempChunks' else tempChunks')"
  by pat_completeness auto

termination vlq_chunks
proof (relation "measure (\<lambda>(currentVal, tempChunks). nat (to_int32 currentVal))")
  show "wf (measure (\<lambda>(currentVal, tempChunks). nat (to_int32 currentVal)))"
    by simp
next
  fix currentVal :: int and tempChunks x :: "int list" and xa :: int
  assume xa: "xa = drop_bit 7 (to_int32 currentVal)" and pos: "0 < xa"
  let ?w = "to_int32 currentVal"
  have bounds: "- (2 ^ 31) \<le> ?w" "?w < 2 ^ 31"
    unfolding to_int32_def
    using signed_take_bit_int_greater_eq_minus_exp [of 31 currentVal]
          signed_take_bit_int_less_exp [of 31 currentVal] by simp_all
  from xa pos have d: "0 < ?w div 128" by (simp add: drop_bit_eq_div)
  then have w: "0 < ?w" by linarith
  then have less: "?w div 128 < ?w" by linarith
  have "signed_take_bit 31 (?w div 128) = ?w div 128"
    by (rule signed_take_bit_int_eq_self) (use d less bounds in linarith)+
  then have "to_int32 xa = ?w div 128"
    by (simp add: xa drop_bit_eq_div to_int32_def)
  with less w show "((xa, x), currentVal, tempChunks)
      \<in> measure (\<lambda>(currentVal, tempChunks). nat (to_int32 currentVal))"
    by simp
qed

declare vlq_chunks.simps [simp del]

text \<open>
  The second loop, \<open>for (let i = tempChunks.length - 1; i >= 0; i--)\<close>: the first argument
  is \<open>i + 1\<close>, so that the loop ends at \<open>0\<close>.
\<close>

fun vlq_emit :: "nat \<Rightarrow> int list \<Rightarrow> int list \<Rightarrow> int list" where
  "vlq_emit 0 tempChunks bytes = bytes"
| "vlq_emit (Suc i) tempChunks bytes =
     (let byte = tempChunks ! i;
          byte = (if i > 0 then byte OR 0x80 else byte)
      in vlq_emit i tempChunks (bytes @ [byte]))"

definition encodeVariableLength :: "int \<Rightarrow> midi_error + int list" where
  "encodeVariableLength v =
     (if v < 0 then Inl NegativeVLQ
      else if v = 0 then Inr [0x00]
      else let tempChunks = vlq_chunks v []
           in Inr (vlq_emit (length tempChunks) tempChunks []))"

subsection \<open>The file\<close>

definition TICKS_PER_QUARTER_NOTE :: int where
  "TICKS_PER_QUARTER_NOTE = 480"

definition secondsToTicks :: "real \<Rightarrow> real \<Rightarrow> int" where
  "secondsToTicks tempo seconds =
     js_round (to_double (to_double (seconds * real_of_int TICKS_PER_QUARTER_NOTE) *
                          to_double (tempo / 60)))"

text \<open>The two events pushed for one note, in the order of the two \<open>allEvents.push\<close> calls.\<close>

definition note_events :: "int \<Rightarrow> note_segment \<Rightarrow> midi_event list" where
  "note_events velocity n =
     (let midiNote = max 0 (min 127 (pitch_midi n))
      in [\<lparr>ev_time = note_start n, ev_type = 0x90, ev_note = midiNote,
            ev_velocity = min 127 velocity\<rparr>,
          \<lparr>ev_time = note_end n, ev_type = 0x80, ev_note = midiNote,
            ev_velocity = 0x00\<rparr>])"

text \<open>
  The loop \<open>for (const event of allEvents)\<close>, with \<open>lastEventTicks\<close> and \<open>trackEvents\<close> as
  its state. An exception from \<open>encodeVariableLength\<close> leaves the loop and the function.
\<close>

fun encode_events ::
  "real \<Rightarrow> midi_event list \<Rightarrow> int \<Rightarrow> int list \<Rightarrow> midi_error + int list" where
  "encode_events tempo [] lastEventTicks trackEvents = Inr trackEvents"
| "encode_events tempo (event # events) lastEventTicks trackEvents =
     (let eventTicks = secondsToTicks tempo (ev_time event);
          deltaTicks = eventTicks - lastEventTicks
      in case encodeVariableLength deltaTicks of
           Inl err \<Rightarrow> Inl err
         | Inr vlq \<Rightarrow>
             encode_events tempo events eventTicks
               (trackEvents @ vlq @ [ev_type event, ev_note event, ev_velocity event]))"

definition tempo_event :: "real \<Rightarrow> int list" where
  "tempo_event tempo =
     (let microSecondsPerBeat = js_round (to_double (60000000 / tempo))
      in [0x00, 0xff, 0x51, 0x03,
          drop_bit 16 (to_int32 microSecondsPerBeat) AND 0xff,
          drop_bit 8 (to_int32 microSecondsPerBeat) AND 0xff,
          to_int32 microSecondsPerBeat AND 0xff])"

definition createMidiFile :: "note_segment list \<Rightarrow> real \<Rightarrow> int \<Rightarrow> midi_error + int list" where
  "createMidiFile noteSegments tempo velocity =
     (let HEADER_CHUNK_TYPE = [0x4d, 0x54, 0x68, 0x64];
          HEADER_CHUNK_LENGTH = [0x00, 0x00, 0x00, 0x06];
          FORMAT_TYPE = [0x00, 0x00];
          NUMBER_OF_TRACKS = [0x00, 0x01];
          TIME_DIVISION = [drop_bit 8 (to_int32 TICKS_PER_QUARTER_NOTE) AND 0xff,
                           to_int32 TICKS_PER_QUARTER_NOTE AND 0xff];
          TRACK_CHUNK_TYPE = [0x4d, 0x54, 0x72, 0x6b];
          allEvents = sort_key ev_time (concat (map (note_events velocity) noteSegments))
      in case encode_events tempo allEvents 0 (tempo_event tempo) of
           Inl err \<Rightarrow> Inl err
         | Inr trackEvents1 \<Rightarrow>
             let trackEvents = trackEvents1 @ [0x00, 0xff, 0x2f, 0x00];
                 trackLength = int (length trackEvents);
                 trackLengthBytes =
                   [drop_bit 24 (to_int32 trackLength) AND 0xff,
                    drop_bit 16 (to_int32 trackLength) AND 0xff,
                    drop_bit 8 (to_int32 trackLength) AND 0xff,
                    to_int32 trackLength AND 0xff]
             in Inr (map to_uint8
                      (HEADER_CHUNK_TYPE @ HEADER_CHUNK_LENGTH @ FORMAT_TYPE @
                       NUMBER_OF_TRACKS @ TIME_DIVISION @ TRACK_CHUNK_TYPE @
                       trackLengthBytes @ trackEvents)))"

text \<open>
  A reader of variable-length quantities, as the Standard MIDI File format defines them
  (the source has none): the 7-bit groups come most significant first, and the group
  without the continuation bit \<open>0x80\<close> is the last. It returns the value and the bytes
  that follow.
\<close>

fun vlq_decode :: "int \<Rightarrow> int list \<Rightarrow> (int \<times> int list) option" where
  "vlq_decode acc [] = None"
| "vlq_decode acc (b # bs) =
     (let acc' = acc * 128 + (b AND 0x7F)
      in if b AND 0x80 \<noteq> 0 then vlq_decode acc' bs else Some (acc', bs))"

text \<open>The number that a list of 7-bit groups stands for, least significant group first.\<close>

fun vlq_value :: "int list \<Rightarrow> int" where
  "vlq_value [] = 0"
| "vlq_value (d # ds) = d + 128 * vlq_value ds"

section \<open>The note segmenter\<close>

record segmentation_params =
  splitSemitoneThreshold :: real
  minNoteDuration :: real
  unvoicedGracePeriod :: real

text \<open>
  An open or closed raw segment, \<open>{ start, end, samples }\<close>. \<open>start\<close> is the timestamp read
  at the frame index, \<open>undefined\<close> when the index is past the end of \<open>timestamps\<close>; \<open>end\<close> is
  that timestamp plus the frame period, \<open>NaN\<close> when the timestamp is \<open>undefined\<close>. \<open>None\<close>
  stands for both.
\<close>

record raw_segment =
  seg_start :: "real option"
  seg_end :: "real option"
  samples :: "real list"

record segmenter_state =
  notes_arr :: "raw_segment list"
  currentNoteSegment :: "raw_segment option"
  unvoicedFramesCount :: nat

definition framePeriod_of :: "real list \<Rightarrow> real" where
  "framePeriod_of timestamps =
     (if length timestamps > 1 then timestamps ! 1 - timestamps ! 0 else 0.016)"

text \<open>
  \<open>midiContour\<close>: one entry per pitch; \<open>None\<close> is \<open>NaN\<close>. \<open>voicing[i]\<close> past the end is
  \<open>undefined\<close>, which is falsy.
\<close>

definition midiContour :: "real list \<Rightarrow> bool list \<Rightarrow> real option list" where
  "midiContour pitchHz voicing =
     map (\<lambda>i. let pitch = pitchHz ! i in
            if nth_opt voicing i = Some True \<and> pitch > 0
            then let validPitch = max pitch (1 / 10 ^ 6)
                 in Some (69 + 12 * log 2 (validPitch / 440.0))
            else None)
         [0..<length pitchHz]"

text \<open>\<open>t + framePeriod\<close>, where \<open>t\<close> may be \<open>undefined\<close>.\<close>

definition plus_period :: "real option \<Rightarrow> real \<Rightarrow> real option" where
  "plus_period t framePeriod = map_option (\<lambda>t. t + framePeriod) t"

definition new_segment :: "real option \<Rightarrow> real \<Rightarrow> real \<Rightarrow> raw_segment" where
  "new_segment t framePeriod midiPitch =
     \<lparr>seg_start = t, seg_end = plus_period t framePeriod, samples = [midiPitch]\<rparr>"

text \<open>
  One iteration of \<open>for (let i = 0; i < voicing.length; i++)\<close>. \<open>midiContour[i]\<close> past
  the end is \<open>undefined\<close>, for which \<open>isNaN\<close> holds.
\<close>

definition segment_frame ::
  "real \<Rightarrow> segmentation_params \<Rightarrow> real list \<Rightarrow> bool list \<Rightarrow> real option list \<Rightarrow>
   segmenter_state \<Rightarrow> nat \<Rightarrow> segmenter_state" where
  "segment_frame framePeriod params timestamps voicing contour st i =
     (let t = nth_opt timestamps i;
          isVoiced = voicing ! i;
          midiPitch = (case nth_opt contour i of None \<Rightarrow> None | Some m \<Rightarrow> m)
      in case (isVoiced, midiPitch) of
           (True, Some m) \<Rightarrow>
             (case currentNoteSegment st of
                None \<Rightarrow>
                  st\<lparr>currentNoteSegment := Some (new_segment t framePeriod m),
                     unvoicedFramesCount := 0\<rparr>
              | Some seg \<Rightarrow>
                  let currentMedian = median (samples seg);
                      pitchDeviation = \<bar>m - currentMedian\<bar>
                  in if pitchDeviation \<ge> splitSemitoneThreshold params
                     then st\<lparr>notes_arr := notes_arr st @ [seg],
                             currentNoteSegment := Some (new_segment t framePeriod m),
                             unvoicedFramesCount := 0\<rparr>
                     else st\<lparr>currentNoteSegment :=
                               Some (seg\<lparr>samples := samples seg @ [m],
                                         seg_end := plus_period t framePeriod\<rparr>),
                             unvoicedFramesCount := 0\<rparr>)
         | _ \<Rightarrow>
             (case currentNoteSegment st of
                None \<Rightarrow> st
              | Some seg \<Rightarrow>
                  let count = unvoicedFramesCount st + 1;
                      unvoicedDuration = real count * framePeriod
                  in if unvoicedDuration \<ge> unvoicedGracePeriod params
                     then st\<lparr>notes_arr := notes_arr st @ [seg],
                             currentNoteSegment := None,
                             unvoicedFramesCount := 0\<rparr>
                     else st\<lparr>currentNoteSegment :=
                               Some (seg\<lparr>seg_end := plus_period t framePeriod\<rparr>),
                             unvoicedFramesCount := count\<rparr>))"

text \<open>
  The body of \<open>notes.map(...)\<close>: \<open>None\<close> is the \<open>null\<close> that \<open>.filter(Boolean)\<close> removes.
  When \<open>start\<close> is \<open>undefined\<close> or \<open>end\<close> is \<open>NaN\<close> the duration is \<open>NaN\<close> and the test
  \<open>duration >= params.minNoteDuration\<close> is false, so a note that passes has both as numbers.
  The field \<open>midi_pitch\<close> of the intermediate note is \<open>pitch_midi\<close> here.
\<close>

definition process_segment :: "segmentation_params \<Rightarrow> raw_segment \<Rightarrow> note_segment option" where
  "process_segment params segment =
     (case (seg_start segment, seg_end segment) of
        (Some s, Some e) \<Rightarrow>
          let duration = e - s
          in if duration \<ge> minNoteDuration params \<and> length (samples segment) > 0
             then let medianPitchMidi = median (samples segment);
                      medianPitchHz = 440.0 * 2 powr ((medianPitchMidi - 69) / 12)
                  in Some \<lparr>note_start = s, note_end = e, pitch_median = medianPitchHz,
                           pitch_midi = js_round medianPitchMidi\<rparr>
             else None
      | _ \<Rightarrow> None)"

text \<open>One iteration of the merge loop; \<open>finalNotes\<close> is never empty there.\<close>

definition merge_note :: "real \<Rightarrow> note_segment list \<Rightarrow> note_segment \<Rightarrow> note_segment list" where
  "merge_note framePeriod finalNotes currentNote =
     (let epsilon = 1 / 10 ^ 9;
          previousNote = last finalNotes;
          gap = note_start currentNote - note_end previousNote
      in if gap \<le> framePeriod + epsilon \<and> pitch_midi previousNote = pitch_midi currentNote
         then butlast finalNotes @ [previousNote\<lparr>note_end := note_end currentNote\<rparr>]
         else finalNotes @ [currentNote])"

definition round_note :: "note_segment \<Rightarrow> note_segment" where
  "round_note n =
     \<lparr>note_start = to_double (toFixed 4 (note_start n)),
      note_end = to_double (toFixed 4 (note_end n)),
      pitch_median = to_double (toFixed 2 (pitch_median n)),
      pitch_midi = pitch_midi n\<rparr>"

definition initial_state :: segmenter_state where
  "initial_state = \<lparr>notes_arr = [], currentNoteSegment = None, unvoicedFramesCount = 0\<rparr>"

definition segmentNotes ::
  "real list \<Rightarrow> real list \<Rightarrow> bool list \<Rightarrow> segmentation_params \<Rightarrow> note_segment list" where
  "segmentNotes timestamps pitchHz voicing params =
     (if length timestamps = 0 then []
      else let framePeriod = framePeriod_of timestamps;
               contour = midiContour pitchHz voicing;
               st = foldl (segment_frame framePeriod params timestamps voicing contour)
                      initial_state [0..<length voicing];
               closed = (case currentNoteSegment st of
                           None \<Rightarrow> notes_arr st
                         | Some seg \<Rightarrow> notes_arr st @ [seg])
           in if length closed = 0 then []
              else let processedNotes = List.map_filter (process_segment params) closed
                   in if length processedNotes = 0 then []
                      else let finalNotes = foldl (merge_note framePeriod)
                                              [processedNotes ! 0] (tl processedNotes)
                           in map round_note finalNotes)"

text \<open>
  The parameters the application passes, \<open>SEGMENTATION_PARAMS\<close>. A decimal literal of the
  source is the double nearest to the decimal; no double lies strictly between the two, so
  the comparison of a double with the literal and with the decimal agree.
\<close>

definition SEGMENTATION_PARAMS :: segmentation_params where
  "SEGMENTATION_PARAMS =
     \<lparr>splitSemitoneThreshold = 0.8, minNoteDuration = 0.05, unvoicedGracePeriod = 0.02\<rparr>"

text \<open>
  The input contract: three sequences of equal length, the timestamps non-decreasing.
  \<open>spaced p\<close> says in addition that each timestamp plus the period \<open>p\<close> does not pass the
  next timestamp.
\<close>

definition well_formed :: "real list \<Rightarrow> real list \<Rightarrow> bool list \<Rightarrow> bool" where
  "well_formed timestamps pitchHz voicing \<longleftrightarrow>
     length pitchHz = length timestamps \<and>
     length voicing = length timestamps \<and>
     sorted timestamps"


section \<open>Vocabulary of the segmenter's invariants\<close>











section \<open>The median and the split decision\<close>

text \<open>
  C1, as the code has it: the segmenter calls the one \<open>median\<close> helper for the split
  decision, and for an even, non-zero count that helper returns the mean of the two middle
  elements of the ascending-sorted samples (indices \<open>n/2 - 1\<close> and \<open>n/2\<close>), not the element
  at index \<open>n/2\<close>. On a voiced frame with MIDI pitch \<open>m\<close> and an open segment, the segment is
  closed exactly when the distance of \<open>m\<close> from that mean reaches the split threshold.
\<close>

theorem split_median_even_count:
  assumes "currentNoteSegment st = Some seg"
    and "samples seg \<noteq> []" and "even (length (samples seg))"
    and "voicing ! i" and "nth_opt contour i = Some (Some m)"
  shows "median (samples seg) =
           (sort (samples seg) ! (length (samples seg) div 2 - 1) +
            sort (samples seg) ! (length (samples seg) div 2)) / 2 \<and>
         (notes_arr (segment_frame framePeriod params timestamps voicing contour st i) =
            notes_arr st @ [seg] \<longleftrightarrow>
          \<bar>m - (sort (samples seg) ! (length (samples seg) div 2 - 1) +
                sort (samples seg) ! (length (samples seg) div 2)) / 2\<bar>
            \<ge> splitSemitoneThreshold params)"
proof -
  from assms(2,3) have med: "median (samples seg) =
           (sort (samples seg) ! (length (samples seg) div 2 - 1) +
            sort (samples seg) ! (length (samples seg) div 2)) / 2"
    by (simp add: median_def Let_def even_iff_mod_2_eq_zero)
  from assms(1,4,5)
  have "notes_arr (segment_frame framePeriod params timestamps voicing contour st i) =
           notes_arr st @ [seg] \<longleftrightarrow>
         \<bar>m - median (samples seg)\<bar> \<ge> splitSemitoneThreshold params"
    by (simp add: segment_frame_def Let_def)
  then show ?thesis unfolding med [symmetric] by simp
qed

text \<open>
  An open segment with the samples \<open>60\<close> and \<open>60.7\<close> and a frame at \<open>61.3\<close>: the mean is
  \<open>60.35\<close>, the distance \<open>0.95\<close> reaches the threshold \<open>0.8\<close>, and the segment is closed. (From
  the element at index \<open>n/2\<close>, \<open>60.7\<close>, the distance would be \<open>0.6\<close>.)
\<close>

theorem split_median_even_count_witness:
  "notes_arr (segment_frame 0.016 SEGMENTATION_PARAMS [0, 0.016, 0.032] [True, True, True]
      [Some 60, Some 60.7, Some 61.3]
      \<lparr>notes_arr = [], currentNoteSegment = Some \<lparr>seg_start = Some 0, seg_end = Some 0.032,
          samples = [60, 60.7]\<rparr>, unvoicedFramesCount = 0\<rparr> 2) =
   [\<lparr>seg_start = Some 0, seg_end = Some 0.032, samples = [60, 60.7]\<rparr>]"
  using split_median_even_count [where
      st = "\<lparr>notes_arr = [], currentNoteSegment = Some \<lparr>seg_start = Some 0, seg_end = Some 0.032,
          samples = [60, 60.7]\<rparr>, unvoicedFramesCount = 0\<rparr>" and
      seg = "\<lparr>seg_start = Some 0, seg_end = Some 0.032, samples = [60, 60.7]\<rparr>" and
      voicing = "[True, True, True]" and i = 2 and contour = "[Some 60, Some 60.7, Some 61.3]" and
      m = "61.3" and framePeriod = "0.016" and timestamps = "[0, 0.016, 0.032]" and
      params = SEGMENTATION_PARAMS]
  by (simp add: nth_opt_def SEGMENTATION_PARAMS_def)

text \<open>For the samples \<open>1\<close> and \<open>3\<close> the helper returns \<open>2\<close>; the element at index \<open>n/2\<close> is \<open>3\<close>.\<close>

theorem median_even_count_counterexample:
  "median [1, 3] \<noteq> sort [1, 3] ! (length [1, 3 :: real] div 2)"
  by (simp add: median_def)

section \<open>The flag of a frame\<close>

text \<open>
  C2: the flag of frame \<open>i\<close> is true if and only if the confidence is strictly greater than
  the threshold and the pitch lies between \<open>min_hz\<close> and \<open>max_hz\<close>, both inclusive. A
  confidence equal to the threshold gives an unvoiced frame; a pitch on either edge of a
  non-empty band, with enough confidence, gives a voiced one.
\<close>

theorem voicedFlags_iff:
  assumes "i < length pitch_hz" and "i < length confidences"
  shows "(voicedFlags True pitch_hz confidences threshold (min_hz, max_hz) ! i \<longleftrightarrow>
           confidences ! i > threshold \<and> min_hz \<le> pitch_hz ! i \<and> pitch_hz ! i \<le> max_hz) \<and>
         (confidences ! i = threshold \<longrightarrow>
           \<not> voicedFlags True pitch_hz confidences threshold (min_hz, max_hz) ! i) \<and>
         (confidences ! i > threshold \<and> min_hz \<le> max_hz \<and>
           (pitch_hz ! i = min_hz \<or> pitch_hz ! i = max_hz) \<longrightarrow>
           voicedFlags True pitch_hz confidences threshold (min_hz, max_hz) ! i)"
  using assms by (auto simp: voicedFlags_def nth_opt_def Let_def)

theorem voicedFlags_iff_witness:
  "voicedFlags True [80, 2000, 440] [0.95, 0.95, 0.9] 0.9 (80, 2000) ! 0 \<and>
   voicedFlags True [80, 2000, 440] [0.95, 0.95, 0.9] 0.9 (80, 2000) ! 1 \<and>
   \<not> voicedFlags True [80, 2000, 440] [0.95, 0.95, 0.9] 0.9 (80, 2000) ! 2"
  using voicedFlags_iff [of 0 "[80, 2000, 440]" "[0.95, 0.95, 0.9]" "0.9" 80 2000]
        voicedFlags_iff [of 1 "[80, 2000, 440]" "[0.95, 0.95, 0.9]" "0.9" 80 2000]
        voicedFlags_iff [of 2 "[80, 2000, 440]" "[0.95, 0.95, 0.9]" "0.9" 80 2000]
  by simp

section \<open>Rounding to the nearest double\<close>

lemma pow2_powr: "pow2 k = 2 powr real_of_int k"
  by (simp add: pow2_def powr_real_of_int inverse_eq_divide)

lemma pow2_pos: "0 < pow2 k"
  by (simp add: pow2_powr)

lemma pow2_mono: "k \<le> l \<Longrightarrow> pow2 k \<le> pow2 l"
  by (simp add: pow2_powr)

lemma pow2_add: "pow2 (k + l) = pow2 k * pow2 l"
  by (simp add: pow2_powr powr_add)

lemma pow2_numeral: "pow2 52 = 2 ^ 52" "pow2 53 = 2 ^ 53" "pow2 1 = 2" "pow2 0 = 1"
  by (simp_all add: pow2_def)

lemma round_half_even_bounds: "\<lfloor>q\<rfloor> \<le> round_half_even q" "round_half_even q \<le> \<lfloor>q\<rfloor> + 1"
  by (simp_all add: round_half_even_def Let_def)

lemma round_half_even_of_int: "round_half_even (real_of_int n) = n"
  by (simp add: round_half_even_def)

lemma round_half_even_mono:
  assumes "q \<le> q'"
  shows "round_half_even q \<le> round_half_even q'"
proof (cases "\<lfloor>q\<rfloor> = \<lfloor>q'\<rfloor>")
  case True
  with assms have "q - real_of_int \<lfloor>q\<rfloor> \<le> q' - real_of_int \<lfloor>q'\<rfloor>" by simp
  with True show ?thesis
    by (auto simp: round_half_even_def Let_def)
next
  case False
  with assms floor_mono [OF assms] have "\<lfloor>q\<rfloor> + 1 \<le> \<lfloor>q'\<rfloor>" by linarith
  with round_half_even_bounds(2) [of q] round_half_even_bounds(1) [of q'] show ?thesis
    by linarith
qed

lemma binade:
  assumes "0 < y"
  shows "pow2 \<lfloor>log 2 y\<rfloor> \<le> y" "y < pow2 (\<lfloor>log 2 y\<rfloor> + 1)"
proof -
  have "\<lfloor>log 2 y\<rfloor> = \<lfloor>log 2 y\<rfloor>" ..
  with floor_log_eq_powr_iff [of y 2 "\<lfloor>log 2 y\<rfloor>"] assms
  have "2 powr real_of_int \<lfloor>log 2 y\<rfloor> \<le> y \<and> y < 2 powr (real_of_int \<lfloor>log 2 y\<rfloor> + 1)"
    by simp
  then show "pow2 \<lfloor>log 2 y\<rfloor> \<le> y" "y < pow2 (\<lfloor>log 2 y\<rfloor> + 1)"
    by (simp_all add: pow2_powr)
qed

lemma binade_unique:
  assumes "pow2 e \<le> y" "y < pow2 (e + 1)"
  shows "\<lfloor>log 2 y\<rfloor> = e"
proof -
  from assms(1) pow2_pos [of e] have "0 < y" by linarith
  with floor_log_eq_powr_iff [of y 2 e] assms show ?thesis
    by (simp add: pow2_powr)
qed

text \<open>For a positive argument in the binade of \<open>e\<close>, the result lies in the closed binade.\<close>

lemma to_double_pos:
  assumes "pow2 e \<le> y" "y < pow2 (e + 1)"
  shows "to_double y = real_of_int (round_half_even (y / pow2 (e - 52))) * pow2 (e - 52)"
    and "pow2 e \<le> to_double y" and "to_double y \<le> pow2 (e + 1)"
proof -
  from assms(1) pow2_pos [of e] have y: "0 < y" by linarith
  let ?u = "pow2 (e - 52)"
  have u: "0 < ?u" by (rule pow2_pos)
  have e: "\<lfloor>log 2 y\<rfloor> = e" using binade_unique [OF assms] .
  show eq: "to_double y = real_of_int (round_half_even (y / ?u)) * ?u"
    using y by (simp add: to_double_def e Let_def)
  have pe: "pow2 e = 2 ^ 52 * ?u" "pow2 (e + 1) = 2 ^ 53 * ?u"
    using pow2_add [of 52 "e - 52"] pow2_add [of 53 "e - 52"] by (simp_all add: pow2_numeral add.commute)
  have "2 ^ 52 \<le> y / ?u" "y / ?u \<le> 2 ^ 53"
    using assms u unfolding pe by (simp_all add: field_simps)
  from round_half_even_mono [OF this(1)] round_half_even_mono [OF this(2)]
  have "2 ^ 52 \<le> round_half_even (y / ?u)" "round_half_even (y / ?u) \<le> 2 ^ 53"
    using round_half_even_of_int [of "2 ^ 52"] round_half_even_of_int [of "2 ^ 53"] by simp_all
  then have "(2::real) ^ 52 \<le> real_of_int (round_half_even (y / ?u))"
            "real_of_int (round_half_even (y / ?u)) \<le> (2::real) ^ 53"
    by (metis of_int_le_iff of_int_numeral of_int_power)+
  then have "2 ^ 52 * ?u \<le> real_of_int (round_half_even (y / ?u)) * ?u"
            "real_of_int (round_half_even (y / ?u)) * ?u \<le> 2 ^ 53 * ?u"
    using u by (simp_all add: mult_right_mono)
  then show "pow2 e \<le> to_double y" "to_double y \<le> pow2 (e + 1)"
    unfolding eq pe by simp_all
qed


lemma to_double_minus: "to_double (- y) = - to_double y"
  by (simp add: to_double_def Let_def)

lemma to_double_zero: "to_double 0 = 0"
  by (simp add: to_double_def)

lemma to_double_positive: "0 < y \<Longrightarrow> 0 < to_double y"
  using to_double_pos(2) [OF binade] pow2_pos [of "\<lfloor>log 2 y\<rfloor>"] by fastforce

lemma to_double_mono_pos:
  assumes "0 < x" "x \<le> y"
  shows "to_double x \<le> to_double y"
proof -
  from assms have y: "0 < y" by simp
  let ?ex = "\<lfloor>log 2 x\<rfloor>" and ?ey = "\<lfloor>log 2 y\<rfloor>"
  note bx = binade [OF assms(1)] and by' = binade [OF y]
  from assms have "log 2 x \<le> log 2 y" by simp
  then have le: "?ex \<le> ?ey" by (rule floor_mono)
  show ?thesis
  proof (cases "?ex = ?ey")
    case True
    let ?u = "pow2 (?ex - 52)"
    have u: "0 < ?u" by (rule pow2_pos)
    from assms(2) u have "x / ?u \<le> y / ?u" by (simp add: divide_right_mono)
    from round_half_even_mono [OF this] u
    have "real_of_int (round_half_even (x / ?u)) * ?u \<le> real_of_int (round_half_even (y / ?u)) * ?u"
      by (simp add: mult_right_mono)
    then show ?thesis
      unfolding to_double_pos(1) [OF bx] to_double_pos(1) [OF by'] True [symmetric] .
  next
    case False
    with le have "?ex + 1 \<le> ?ey" by simp
    from pow2_mono [OF this] to_double_pos(3) [OF bx] to_double_pos(2) [OF by']
    show ?thesis by linarith
  qed
qed

lemma to_double_mono:
  assumes "x \<le> y"
  shows "to_double x \<le> to_double y"
proof -
  consider "0 < x" | "x \<le> 0" "0 \<le> y" | "y < 0" by linarith
  then show ?thesis
  proof cases
    case 1
    then show ?thesis using assms by (rule to_double_mono_pos)
  next
    case 2
    have "to_double x \<le> 0"
    proof (cases "x = 0")
      case True
      then show ?thesis by (simp add: to_double_zero)
    next
      case False
      with 2 have "0 < - x" by simp
      from to_double_positive [OF this] show ?thesis by (simp add: to_double_minus)
    qed
    moreover have "0 \<le> to_double y"
    proof (cases "y = 0")
      case True
      then show ?thesis by (simp add: to_double_zero)
    next
      case False
      with 2 have "0 < y" by simp
      from to_double_positive [OF this] show ?thesis by simp
    qed
    ultimately show ?thesis by linarith
  next
    case 3
    with assms have "0 < - y" "- y \<le> - x" by simp_all
    from to_double_mono_pos [OF this] show ?thesis by (simp add: to_double_minus)
  qed
qed

text \<open>A number that is a double is returned unchanged.\<close>

lemma to_double_exact:
  assumes "pow2 e \<le> y" "y < pow2 (e + 1)" "y / pow2 (e - 52) = real_of_int n"
  shows "to_double y = y"
proof -
  have "0 < pow2 (e - 52)" by (rule pow2_pos)
  with assms(3) have "real_of_int n * pow2 (e - 52) = y" by (simp add: field_simps)
  then show ?thesis
    unfolding to_double_pos(1) [OF assms(1,2)] assms(3) round_half_even_of_int .
qed

lemma to_double_examples:
  "to_double 2 = 2" "to_double 480 = 480" "to_double 960 = 960" "to_double 500000 = 500000"
  "to_double 440 = 440" "to_double 880 = 880"
  "to_double (1 / 16) = 1 / 16" "to_double (1 / 8) = 1 / 8"
proof -
  show "to_double 2 = 2"
    by (rule to_double_exact [where e = 1 and n = "2 ^ 52"]) (simp_all add: pow2_def)
  show "to_double 480 = 480"
    by (rule to_double_exact [where e = 8 and n = "480 * 2 ^ 44"]) (simp_all add: pow2_def)
  show "to_double 960 = 960"
    by (rule to_double_exact [where e = 9 and n = "960 * 2 ^ 43"]) (simp_all add: pow2_def)
  show "to_double 500000 = 500000"
    by (rule to_double_exact [where e = 18 and n = "500000 * 2 ^ 34"]) (simp_all add: pow2_def)
  show "to_double 440 = 440"
    by (rule to_double_exact [where e = 8 and n = "440 * 2 ^ 44"]) (simp_all add: pow2_def)
  show "to_double 880 = 880"
    by (rule to_double_exact [where e = 9 and n = "880 * 2 ^ 43"]) (simp_all add: pow2_def)
  show "to_double (1 / 16) = 1 / 16"
    by (rule to_double_exact [where e = "- 4" and n = "2 ^ 52"]) (simp_all add: pow2_def)
  show "to_double (1 / 8) = 1 / 8"
    by (rule to_double_exact [where e = "- 3" and n = "2 ^ 52"]) (simp_all add: pow2_def)
qed


text \<open>The doubles nearest to \<open>0.05\<close>, \<open>0.1\<close> and \<open>0.15\<close>.\<close>

lemma to_double_twentieths:
  "to_double (1 / 20) = 3602879701896397 / 72057594037927936"
  "to_double (1 / 10) = 3602879701896397 / 36028797018963968"
  "to_double (3 / 20) = 5404319552844595 / 36028797018963968"
proof -
  show "to_double (1 / 20) = 3602879701896397 / 72057594037927936"
    by (subst to_double_pos(1) [where e = "- 5"])
       (simp_all add: pow2_def round_half_even_def Let_def)
  show "to_double (1 / 10) = 3602879701896397 / 36028797018963968"
    by (subst to_double_pos(1) [where e = "- 4"])
       (simp_all add: pow2_def round_half_even_def Let_def)
  show "to_double (3 / 20) = 5404319552844595 / 36028797018963968"
    by (subst to_double_pos(1) [where e = "- 3"])
       (simp_all add: pow2_def round_half_even_def Let_def)
qed

section \<open>The MIDI encoder on concrete inputs\<close>

lemma and_255_uint8: "to_uint8 (x AND 0xff) = x AND 0xff"
proof -
  have "x AND 255 = take_bit 8 x"
    by (simp add: take_bit_eq_mask mask_eq_exp_minus_1)
  then show ?thesis
    by (simp add: to_uint8_def take_bit_eq_mod)
qed

text \<open>
  C6, as the code has it: the note \<open>{start: 0, end: 1, pitch_midi: 60}\<close> at tempo 120 and
  velocity 80 gives the header \<open>4D 54 68 64 00 00 00 06 00 00 00 01 01 E0\<close>, the chunk tag
  \<open>MTrk\<close> with the length 20, the tempo meta-event \<open>00 FF 51 03 07 A1 20\<close>, the Note-On
  \<open>00 90 3C 50\<close>, the Note-Off at delta 960 (one second at 120 beats per minute is two
  quarter notes of 480 ticks), that is \<open>87 40\<close> followed by \<open>80 3C 00\<close>, and the end of track
  \<open>00 FF 2F 00\<close>.
\<close>

theorem createMidiFile_single_note:
  "createMidiFile [\<lparr>note_start = 0, note_end = 1, pitch_median = hz, pitch_midi = 60\<rparr>] 120 80 =
     Inr ([0x4D, 0x54, 0x68, 0x64, 0x00, 0x00, 0x00, 0x06, 0x00, 0x00, 0x00, 0x01, 0x01, 0xE0] @
          [0x4D, 0x54, 0x72, 0x6B] @ [0x00, 0x00, 0x00, 0x14] @
          [0x00, 0xFF, 0x51, 0x03, 0x07, 0xA1, 0x20] @
          [0x00, 0x90, 0x3C, 0x50] @
          [0x87, 0x40, 0x80, 0x3C, 0x00] @
          [0x00, 0xFF, 0x2F, 0x00])"
  by (simp add: createMidiFile_def tempo_event_def Let_def TICKS_PER_QUARTER_NOTE_def
      note_events_def secondsToTicks_def js_round_def encodeVariableLength_def
      vlq_chunks.simps to_int32_def to_uint8_def numeral_2_eq_2
      to_double_zero to_double_minus to_double_examples)

text \<open>The file with the Note-Off at delta 480, \<open>83 60\<close>, is not what the encoder returns.\<close>

theorem createMidiFile_single_note_counterexample:
  "createMidiFile [\<lparr>note_start = 0, note_end = 1, pitch_median = 261.63, pitch_midi = 60\<rparr>] 120 80 \<noteq>
     Inr ([0x4D, 0x54, 0x68, 0x64, 0x00, 0x00, 0x00, 0x06, 0x00, 0x00, 0x00, 0x01, 0x01, 0xE0] @
          [0x4D, 0x54, 0x72, 0x6B] @ [0x00, 0x00, 0x00, 0x14] @
          [0x00, 0xFF, 0x51, 0x03, 0x07, 0xA1, 0x20] @
          [0x00, 0x90, 0x3C, 0x50] @
          [0x83, 0x60, 0x80, 0x3C, 0x00] @
          [0x00, 0xFF, 0x2F, 0x00])"
  by (simp add: createMidiFile_def tempo_event_def Let_def TICKS_PER_QUARTER_NOTE_def
      note_events_def secondsToTicks_def js_round_def encodeVariableLength_def
      vlq_chunks.simps to_int32_def to_uint8_def numeral_2_eq_2
      to_double_zero to_double_minus to_double_examples)

text \<open>
  C7 at a velocity below zero: with velocity \<open>-1\<close> the Note-On of the note
  \<open>{start: 0, end: 1, pitch_midi: 60}\<close> is \<open>90 3C FF\<close>. \<open>Math.min(127, velocity)\<close> leaves \<open>-1\<close>,
  which the byte array stores as 255; the velocity is not clamped to 0.
\<close>

theorem createMidiFile_negative_velocity:
  "createMidiFile [\<lparr>note_start = 0, note_end = 1, pitch_median = 261.63, pitch_midi = 60\<rparr>] 120 (- 1) =
     Inr ([0x4D, 0x54, 0x68, 0x64, 0x00, 0x00, 0x00, 0x06, 0x00, 0x00, 0x00, 0x01, 0x01, 0xE0] @
          [0x4D, 0x54, 0x72, 0x6B] @ [0x00, 0x00, 0x00, 0x14] @
          [0x00, 0xFF, 0x51, 0x03, 0x07, 0xA1, 0x20] @
          [0x00, 0x90, 0x3C, 0xFF] @
          [0x87, 0x40, 0x80, 0x3C, 0x00] @
          [0x00, 0xFF, 0x2F, 0x00])"
  by (simp add: createMidiFile_def tempo_event_def Let_def TICKS_PER_QUARTER_NOTE_def
      note_events_def secondsToTicks_def js_round_def encodeVariableLength_def
      vlq_chunks.simps to_int32_def to_uint8_def numeral_2_eq_2
      to_double_zero to_double_minus to_double_examples)

text \<open>
  For a velocity that is not negative, and for every \<open>pitch_midi\<close>, both events of a note
  carry a note number and a velocity between 0 and 127.
\<close>

lemma note_events_in_range:
  assumes "0 \<le> velocity" and "e \<in> set (note_events velocity n)"
  shows "0 \<le> ev_note e \<and> ev_note e \<le> 127 \<and> 0 \<le> ev_velocity e \<and> ev_velocity e \<le> 127"
  using assms by (auto simp: note_events_def Let_def)

text \<open>
  C8: for every tempo and velocity, the empty note list is encoded without an error, as
  the 14-byte header, the chunk tag \<open>MTrk\<close>, the length 11, and the 11 bytes of the tempo
  meta-event (\<open>00 FF 51 03\<close> and the three bytes of the microseconds per quarter note)
  followed by the end of track \<open>00 FF 2F 00\<close>.
\<close>

theorem createMidiFile_empty:
  "createMidiFile [] tempo velocity =
     (let m = to_int32 (js_round (to_double (60000000 / tempo)))
      in Inr ([0x4D, 0x54, 0x68, 0x64, 0x00, 0x00, 0x00, 0x06, 0x00, 0x00, 0x00, 0x01, 0x01, 0xE0] @
              [0x4D, 0x54, 0x72, 0x6B] @ [0x00, 0x00, 0x00, 0x0B] @
              [0x00, 0xFF, 0x51, 0x03, drop_bit 16 m AND 0xFF, drop_bit 8 m AND 0xFF, m AND 0xFF] @
              [0x00, 0xFF, 0x2F, 0x00]))"
  by (simp add: createMidiFile_def tempo_event_def Let_def TICKS_PER_QUARTER_NOTE_def
      and_255_uint8 to_int32_def to_uint8_def)

section \<open>Variable-length quantities: the round trip\<close>

lemma and_127_mod: "(x::int) AND 0x7F = x mod 128"
proof -
  have "x AND 127 = take_bit 7 x"
    by (simp add: take_bit_eq_mask mask_eq_exp_minus_1)
  then show ?thesis
    by (simp add: take_bit_eq_mod)
qed

lemma and_128_zero:
  assumes "0 \<le> c" "c < (128::int)"
  shows "c AND 0x80 = 0"
proof -
  from assms have "\<not> bit c 7" by (simp add: bit_iff_odd)
  with and_exp_eq_0_iff_not_bit [of c 7] have "c AND 2 ^ 7 = 0" by blast
  then show ?thesis by simp
qed

lemma or_absorb: "((c::int) OR d) AND d = d"
  by (rule bit_eqI) (auto simp: bit_and_iff bit_or_iff)

lemma or_128_and_127:
  assumes "0 \<le> c" "c < (128::int)"
  shows "(c OR 0x80) AND 0x7F = c"
proof -
  have "(c OR 128) AND 127 = (c AND 127) OR (128 AND 127)"
    by (simp only: bit.conj_disj_distrib2)
  also have "\<dots> = c AND 127" by simp
  also have "\<dots> = c" using assms by (simp add: and_127_mod)
  finally show ?thesis by simp
qed

lemma vlq_chunks_in_range:
  assumes "0 \<le> v" "v < 2 ^ 31"
  shows "vlq_chunks v cs =
     (if v div 128 > 0 then vlq_chunks (v div 128) (cs @ [v mod 128]) else cs @ [v mod 128])"
proof -
  from assms have "to_int32 v = v"
    unfolding to_int32_def by (intro signed_take_bit_int_eq_self) simp_all
  then show ?thesis
    by (subst vlq_chunks.simps) (simp add: Let_def and_127_mod drop_bit_eq_div)
qed

lemma vlq_chunks_prefix:
  "0 \<le> v \<Longrightarrow> v < 2 ^ 31 \<Longrightarrow> vlq_chunks v cs = cs @ vlq_chunks v []"
proof (induction "nat v" arbitrary: v cs rule: less_induct)
  case less
  show ?case
  proof (cases "v div 128 > 0")
    case True
    with less.prems have small: "nat (v div 128) < nat v" "0 \<le> v div 128" "v div 128 < 2 ^ 31"
      by linarith+
    have "vlq_chunks v cs = vlq_chunks (v div 128) (cs @ [v mod 128])"
      using True less.prems by (simp add: vlq_chunks_in_range [of v cs])
    also have "\<dots> = (cs @ [v mod 128]) @ vlq_chunks (v div 128) []"
      using less.hyps [OF small] .
    also have "\<dots> = cs @ vlq_chunks (v div 128) [v mod 128]"
      using less.hyps [OF small, of "[v mod 128]"] by simp
    also have "vlq_chunks (v div 128) [v mod 128] = vlq_chunks v []"
      using True less.prems by (simp add: vlq_chunks_in_range [of v "[]"])
    finally show ?thesis .
  next
    case False
    with less.prems show ?thesis
      by (simp add: vlq_chunks_in_range [of v cs] vlq_chunks_in_range [of v "[]"])
  qed
qed

lemma vlq_chunks_Cons:
  assumes "0 \<le> v" "v < 2 ^ 31"
  shows "vlq_chunks v [] =
     v mod 128 # (if v div 128 > 0 then vlq_chunks (v div 128) [] else [])"
proof (cases "v div 128 > 0")
  case True
  with assms have "0 \<le> v div 128" "v div 128 < 2 ^ 31" by linarith+
  from vlq_chunks_prefix [OF this, of "[v mod 128]"] True assms show ?thesis
    by (simp add: vlq_chunks_in_range [of v "[]"])
next
  case False
  with assms show ?thesis by (simp add: vlq_chunks_in_range [of v "[]"])
qed

lemma vlq_chunks_groups:
  "0 \<le> v \<Longrightarrow> v < 2 ^ 31 \<Longrightarrow>
     (\<forall>d \<in> set (vlq_chunks v []). 0 \<le> d \<and> d < 128) \<and> vlq_value (vlq_chunks v []) = v \<and>
     vlq_chunks v [] \<noteq> []"
proof (induction "nat v" arbitrary: v rule: less_induct)
  case less
  have d: "0 \<le> v mod 128" "v mod 128 < 128" by simp_all
  show ?case
  proof (cases "v div 128 > 0")
    case True
    with less.prems have small: "nat (v div 128) < nat v" "0 \<le> v div 128" "v div 128 < 2 ^ 31"
      by linarith+
    let ?r = "vlq_chunks (v div 128) []"
    have eq: "vlq_chunks v [] = v mod 128 # ?r"
      using vlq_chunks_Cons [OF less.prems] True by simp
    from less.hyps [OF small]
    have ih: "\<forall>d \<in> set ?r. 0 \<le> d \<and> d < 128" "vlq_value ?r = v div 128" by blast+
    have "vlq_value (v mod 128 # ?r) = v mod 128 + 128 * (v div 128)"
      using ih(2) by simp
    also have "\<dots> = v" by presburger
    finally have "vlq_value (v mod 128 # ?r) = v" .
    with ih(1) d show ?thesis unfolding eq by simp
  next
    case False
    with less.prems have "v < 128" by linarith
    with less.prems have "v div 128 = 0" "v mod 128 = v" by simp_all
    with vlq_chunks_Cons [OF less.prems] have eq: "vlq_chunks v [] = [v]" by simp
    from less.prems \<open>v < 128\<close> show ?thesis unfolding eq by simp
  qed
qed

lemma vlq_emit_prefix: "vlq_emit k ds bytes = bytes @ vlq_emit k ds []"
proof (induction k arbitrary: bytes)
  case 0
  show ?case by simp
next
  case (Suc k)
  show ?case
    using Suc [of "bytes @ [if k > 0 then ds ! k OR 0x80 else ds ! k]"]
          Suc [of "[if k > 0 then ds ! k OR 0x80 else ds ! k]"]
    by (simp add: Let_def)
qed

lemma vlq_value_snoc: "vlq_value (ds @ [d]) = vlq_value ds + 128 ^ length ds * d"
  by (induction ds) (simp_all add: algebra_simps)

lemma vlq_decode_emit:
  assumes "\<forall>d \<in> set ds. 0 \<le> d \<and> d < 128"
  shows "k < length ds \<Longrightarrow>
     vlq_decode acc (vlq_emit (Suc k) ds [] @ rest) =
       Some (acc * 128 ^ Suc k + vlq_value (take (Suc k) ds), rest)"
proof (induction k arbitrary: acc)
  case 0
  then have "ds ! 0 \<in> set ds" by simp
  with assms have g: "0 \<le> ds ! 0" "ds ! 0 < 128" by auto
  from 0 have "take (Suc 0) ds = [ds ! 0]"
    by (cases ds) simp_all
  with g show ?case
    by (simp add: and_127_mod and_128_zero)
next
  case (Suc k)
  then have "ds ! Suc k \<in> set ds" by simp
  with assms have g: "0 \<le> ds ! Suc k" "ds ! Suc k < 128" by auto
  from Suc.prems have k: "k < length ds" by simp
  have emit: "vlq_emit (Suc (Suc k)) ds [] = (ds ! Suc k OR 0x80) # vlq_emit (Suc k) ds []"
    using vlq_emit_prefix [of "Suc k" ds "[ds ! Suc k OR 0x80]"] by (simp add: Let_def)
  have tk: "take (Suc (Suc k)) ds = take (Suc k) ds @ [ds ! Suc k]"
    using Suc.prems by (simp add: take_Suc_conv_app_nth)
  have len: "length (take (Suc k) ds) = Suc k"
    using Suc.prems by simp
  have "vlq_decode acc (vlq_emit (Suc (Suc k)) ds [] @ rest) =
          vlq_decode (acc * 128 + ds ! Suc k) (vlq_emit (Suc k) ds [] @ rest)"
    unfolding emit using g by (simp add: or_128_and_127 or_absorb)
  also have "\<dots> = Some ((acc * 128 + ds ! Suc k) * 128 ^ Suc k + vlq_value (take (Suc k) ds), rest)"
    using Suc.IH [OF k] .
  finally show ?case
    unfolding tk vlq_value_snoc len by (simp add: algebra_simps)
qed

text \<open>
  C5, as the code has it: for every integer \<open>v\<close> with \<open>0 \<le> v < 2^31\<close> the routine returns
  bytes from which a reader of variable-length quantities recovers \<open>v\<close>, leaving the bytes
  that follow untouched; \<open>0\<close> is encoded as the single byte \<open>0x00\<close>; a negative value raises
  the error. (The bitwise operators read their operand as a 32-bit integer, so the round
  trip stops at \<open>2^31\<close>.)
\<close>

theorem encodeVariableLength_roundtrip:
  "(0 \<le> v \<and> v < 2 ^ 31 \<longrightarrow>
      (\<exists>bytes. encodeVariableLength v = Inr bytes \<and>
         vlq_decode 0 (bytes @ rest) = Some (v, rest))) \<and>
   encodeVariableLength 0 = Inr [0x00] \<and>
   (v < 0 \<longrightarrow> encodeVariableLength v = Inl NegativeVLQ)"
proof (intro conjI impI)
  show "encodeVariableLength 0 = Inr [0x00]"
    by (simp add: encodeVariableLength_def)
  show "encodeVariableLength v = Inl NegativeVLQ" if "v < 0"
    using that by (simp add: encodeVariableLength_def)
  show "\<exists>bytes. encodeVariableLength v = Inr bytes \<and> vlq_decode 0 (bytes @ rest) = Some (v, rest)"
    if "0 \<le> v \<and> v < 2 ^ 31"
  proof (cases "v = 0")
    case True
    then show ?thesis by (simp add: encodeVariableLength_def)
  next
    case False
    let ?ds = "vlq_chunks v []"
    from that vlq_chunks_groups [of v]
    have groups: "\<forall>d \<in> set ?ds. 0 \<le> d \<and> d < 128" and val: "vlq_value ?ds = v"
      and ne: "?ds \<noteq> []" by simp_all
    from ne obtain k where k: "length ?ds = Suc k" by (cases ?ds) simp_all
    then have "k < length ?ds" by simp
    from vlq_decode_emit [OF groups this, of 0 rest] k val
    have "vlq_decode 0 (vlq_emit (length ?ds) ?ds [] @ rest) = Some (v, rest)"
      by simp
    with False that show ?thesis
      by (simp add: encodeVariableLength_def Let_def)
  qed
qed

theorem encodeVariableLength_roundtrip_witness:
  "encodeVariableLength 480 = Inr [0x83, 0x60] \<and>
   vlq_decode 0 ([0x83, 0x60] @ [0x80, 0x3C, 0x00]) = Some (480, [0x80, 0x3C, 0x00]) \<and>
   encodeVariableLength (- 1) = Inl NegativeVLQ"
  using encodeVariableLength_roundtrip [of 480 "[0x80, 0x3C, 0x00]"]
        encodeVariableLength_roundtrip [of "- 1" "[]"]
  by (simp add: encodeVariableLength_def vlq_chunks.simps to_int32_def)

text \<open>
  At \<open>v = 2^31\<close> the 32-bit reading of the operand is negative: its low seven bits are
  zero and the loop ends after one pass, so the encoding is the single byte \<open>0x00\<close>, which
  reads back as \<open>0\<close>.
\<close>

theorem encodeVariableLength_roundtrip_counterexample:
  "encodeVariableLength 2147483648 = Inr [0x00] \<and>
   vlq_decode 0 [0x00] = Some (0, [])"
  by (simp add: encodeVariableLength_def vlq_chunks.simps to_int32_def)

section \<open>The encoder returns\<close>

lemma encodeVariableLength_nonneg:
  "0 \<le> d \<Longrightarrow> \<exists>bytes. encodeVariableLength d = Inr bytes"
  by (simp add: encodeVariableLength_def Let_def)

lemma secondsToTicks_mono:
  assumes "0 \<le> tempo" "a \<le> b"
  shows "secondsToTicks tempo a \<le> secondsToTicks tempo b"
proof -
  have "a * real_of_int TICKS_PER_QUARTER_NOTE \<le> b * real_of_int TICKS_PER_QUARTER_NOTE"
    using assms(2) by (intro mult_right_mono) (simp_all add: TICKS_PER_QUARTER_NOTE_def)
  then have "to_double (a * real_of_int TICKS_PER_QUARTER_NOTE) \<le>
             to_double (b * real_of_int TICKS_PER_QUARTER_NOTE)"
    by (rule to_double_mono)
  moreover have "0 \<le> to_double (tempo / 60)"
    using to_double_mono [of 0 "tempo / 60"] assms(1) by (simp add: to_double_zero)
  ultimately have "to_double (a * real_of_int TICKS_PER_QUARTER_NOTE) * to_double (tempo / 60) \<le>
                   to_double (b * real_of_int TICKS_PER_QUARTER_NOTE) * to_double (tempo / 60)"
    by (rule mult_right_mono)
  then have "to_double (to_double (a * real_of_int TICKS_PER_QUARTER_NOTE) * to_double (tempo / 60)) \<le>
             to_double (to_double (b * real_of_int TICKS_PER_QUARTER_NOTE) * to_double (tempo / 60))"
    by (rule to_double_mono)
  then show ?thesis
    unfolding secondsToTicks_def js_round_def by (intro floor_mono) simp
qed

lemma secondsToTicks_nonneg:
  assumes "0 \<le> tempo" "0 \<le> a"
  shows "0 \<le> secondsToTicks tempo a"
proof -
  have "secondsToTicks tempo 0 = 0"
    by (simp add: secondsToTicks_def js_round_def to_double_zero)
  with secondsToTicks_mono [OF assms(1), of 0 a] assms(2) show ?thesis by simp
qed

lemma encode_events_returns:
  assumes "0 \<le> tempo"
  shows "sorted (map ev_time events) \<Longrightarrow>
     \<forall>e \<in> set events. lastEventTicks \<le> secondsToTicks tempo (ev_time e) \<Longrightarrow>
     \<exists>bytes. encode_events tempo events lastEventTicks trackEvents = Inr bytes"
proof (induction events arbitrary: lastEventTicks trackEvents)
  case Nil
  show ?case by simp
next
  case (Cons e es)
  let ?ticks = "secondsToTicks tempo (ev_time e)"
  from Cons.prems(2) have "0 \<le> ?ticks - lastEventTicks" by simp
  then obtain vlq where vlq: "encodeVariableLength (?ticks - lastEventTicks) = Inr vlq"
    using encodeVariableLength_nonneg by blast
  from Cons.prems(1) have s: "sorted (map ev_time es)" and le: "\<forall>x \<in> set es. ev_time e \<le> ev_time x"
    by simp_all
  from le have "\<forall>x \<in> set es. ?ticks \<le> secondsToTicks tempo (ev_time x)"
    using secondsToTicks_mono [OF assms] by blast
  from Cons.IH [OF s this] vlq show ?case
    by (simp add: Let_def)
qed

text \<open>
  C10, as the code has it: for every non-negative tempo and every note list in which every
  start and end is non-negative, the encoder returns a file and does not raise. The events
  are sorted by time, the tick count grows with the time when the tempo is not negative,
  and so every delta handed to \<open>encodeVariableLength\<close> is non-negative.
\<close>

theorem createMidiFile_returns:
  assumes "0 \<le> tempo"
    and "\<forall>n \<in> set noteSegments. 0 \<le> note_start n \<and> 0 \<le> note_end n"
  shows "\<exists>bytes. createMidiFile noteSegments tempo velocity = Inr bytes"
proof -
  let ?all = "sort_key ev_time (concat (map (note_events velocity) noteSegments))"
  have "\<forall>e \<in> set ?all. 0 \<le> ev_time e"
    using assms(2) by (auto simp: note_events_def Let_def)
  then have "\<forall>e \<in> set ?all. 0 \<le> secondsToTicks tempo (ev_time e)"
    using secondsToTicks_nonneg [OF assms(1)] by blast
  moreover have "sorted (map ev_time ?all)" by simp
  ultimately obtain bytes where "encode_events tempo ?all 0 (tempo_event tempo) = Inr bytes"
    using encode_events_returns [OF assms(1)] by blast
  then show ?thesis
    by (simp add: createMidiFile_def Let_def)
qed

theorem createMidiFile_returns_witness:
  "\<exists>bytes. createMidiFile
      [\<lparr>note_start = 1, note_end = 2, pitch_median = 440, pitch_midi = 69\<rparr>,
       \<lparr>note_start = 0, note_end = 1, pitch_median = 261.63, pitch_midi = 60\<rparr>] 120 80 = Inr bytes"
  using createMidiFile_returns [of 120
      "[\<lparr>note_start = 1, note_end = 2, pitch_median = 440, pitch_midi = 69\<rparr>,
        \<lparr>note_start = 0, note_end = 1, pitch_median = 261.63, pitch_midi = 60\<rparr>]" 80]
  by simp

text \<open>
  With tempo \<open>-120\<close> the note \<open>{start: 0, end: 1}\<close> has its Note-Off at tick \<open>-960\<close>; the delta
  is negative and the encoder raises.
\<close>

theorem createMidiFile_returns_counterexample:
  "createMidiFile [\<lparr>note_start = 0, note_end = 1, pitch_median = 261.63, pitch_midi = 60\<rparr>] (- 120) 80
     = Inl NegativeVLQ"
  by (simp add: createMidiFile_def tempo_event_def Let_def TICKS_PER_QUARTER_NOTE_def
      note_events_def secondsToTicks_def js_round_def encodeVariableLength_def
      vlq_chunks.simps to_int32_def to_uint8_def numeral_2_eq_2
      to_double_zero to_double_minus to_double_examples)

section \<open>Rounding to a fixed number of decimals\<close>










section \<open>The order of the returned segments\<close>

subsection \<open>Starts and ends in order\<close>













subsection \<open>No overlap when the timestamps are spaced by the period\<close>














subsection \<open>Concrete runs\<close>

lemmas seg_eval = segmentNotes_def framePeriod_of_def midiContour_def nth_opt_def segment_frame_def
  initial_state_def new_segment_def plus_period_def median_def process_segment_def merge_note_def
  round_note_def toFixed_def js_round_def SEGMENTATION_PARAMS_def upt_rec Let_def



text \<open>
  Three frames at the 32-bit floats nearest to \<open>0\<close>, \<open>0.05\<close> and \<open>0.1\<close>, at 440 Hz, 880 Hz
  and 440 Hz, with the parameters of the application. The frame period is the float nearest
  to \<open>0.05\<close>, which lies above it, so each of the three segments passes the duration test; the
  third runs from \<open>0.1000000015\<close> to \<open>0.1500000022\<close> and is reported from the double nearest
  to \<open>0.1\<close> to the double nearest to \<open>0.15\<close>.
\<close>

lemma segmentNotes_three_notes:
  "segmentNotes [0, 13421773 / 268435456, 13421773 / 134217728] [440, 880, 440]
     [True, True, True] SEGMENTATION_PARAMS =
   [\<lparr>note_start = 0, note_end = 3602879701896397 / 72057594037927936,
      pitch_median = 440, pitch_midi = 69\<rparr>,
    \<lparr>note_start = 3602879701896397 / 72057594037927936,
      note_end = 3602879701896397 / 36028797018963968,
      pitch_median = 880, pitch_midi = 81\<rparr>,
    \<lparr>note_start = 3602879701896397 / 36028797018963968,
      note_end = 5404319552844595 / 36028797018963968,
      pitch_median = 440, pitch_midi = 69\<rparr>]"
  by (simp add: seg_eval to_double_zero to_double_examples to_double_twentieths)


subsection \<open>The order of starts and ends\<close>






section \<open>Durations of the reported notes\<close>

text \<open>
  With the parameters of the application, on the three frames above: the reported end of the
  third note minus its reported start is below the minimal duration \<open>0.05\<close>, the double
  nearest to \<open>0.15\<close> lying below \<open>0.15\<close> and the double nearest to \<open>0.1\<close> above \<open>0.1\<close>.
\<close>

lemma segmentNotes_reported_short:
  "well_formed [0, 13421773 / 268435456, 13421773 / 134217728] [440, 880, 440] [True, True, True] \<and>
   note_end (segmentNotes [0, 13421773 / 268435456, 13421773 / 134217728] [440, 880, 440]
     [True, True, True] SEGMENTATION_PARAMS ! 2) -
   note_start (segmentNotes [0, 13421773 / 268435456, 13421773 / 134217728] [440, 880, 440]
     [True, True, True] SEGMENTATION_PARAMS ! 2) < minNoteDuration SEGMENTATION_PARAMS"
  unfolding segmentNotes_three_notes by (simp add: well_formed_def SEGMENTATION_PARAMS_def)




section \<open>Sequences of unequal lengths\<close>

lemma midiContour_append:
  assumes "i < length pitchHz"
  shows "nth_opt (midiContour (pitchHz @ extra) voicing) i = nth_opt (midiContour pitchHz voicing) i"
  using assms by (simp add: midiContour_def nth_opt_def nth_append Let_def)

lemma segment_frame_contour:
  "nth_opt contour i = nth_opt contour' i \<Longrightarrow>
     segment_frame fp params ts vs contour st i = segment_frame fp params ts vs contour' st i"
  by (simp add: segment_frame_def)

text \<open>
  C9, as the code has it: the segmenter has no length check and raises no error. It
  iterates over the indices of the voicing sequence and returns a segment list; pitch
  entries past the end of the voicing sequence are never read, so the result is that of
  the pitch sequence without them.
\<close>

theorem segmentNotes_surplus_pitch:
  assumes "length voicing \<le> length pitchHz"
  shows "segmentNotes timestamps (pitchHz @ extra) voicing params =
         segmentNotes timestamps pitchHz voicing params"
proof -
  have "foldl (segment_frame fp params timestamps voicing (midiContour (pitchHz @ extra) voicing))
          initial_state [0..<length voicing] =
        foldl (segment_frame fp params timestamps voicing (midiContour pitchHz voicing))
          initial_state [0..<length voicing]" for fp
  proof (rule foldl_cong [OF refl refl])
    fix st i
    assume "i \<in> set [0..<length voicing]"
    with assms have "i < length pitchHz" by simp
    from segment_frame_contour [OF midiContour_append [OF this]]
    show "segment_frame fp params timestamps voicing (midiContour (pitchHz @ extra) voicing) st i =
          segment_frame fp params timestamps voicing (midiContour pitchHz voicing) st i" .
  qed
  then show ?thesis by (simp add: segmentNotes_def)
qed

theorem segmentNotes_surplus_pitch_witness:
  "segmentNotes [0, 0.05] ([440, 880] @ [1760]) [True, True] SEGMENTATION_PARAMS =
   segmentNotes [0, 0.05] [440, 880] [True, True] SEGMENTATION_PARAMS"
  using segmentNotes_surplus_pitch [of "[True, True]" "[440, 880]" "[0, 0.05]" "[1760]"
      SEGMENTATION_PARAMS]
  by simp

text \<open>
  Two timestamps against four pitches and four voicing flags, all voiced at 440 Hz: the
  frames at indices 2 and 3 read \<open>undefined\<close> timestamps, the end of the open segment
  becomes \<open>NaN\<close>, the duration test fails, and the segmenter returns the empty list.
\<close>

theorem segmentNotes_length_mismatch_counterexample:
  "length [0, 0.016 :: real] \<noteq> length [True, True, True, True] \<and>
   segmentNotes [0, 0.016] [440, 440, 440, 440] [True, True, True, True] SEGMENTATION_PARAMS = []"
  by (simp add: seg_eval)

end
